theory Spec2Isabelle
  imports Complex_Main "HOL-Library.Sublist"
begin

section \<open>Data models of the FAQ service\<close>

text \<open>
  The embedding follows \<^verbatim>\<open>backend/app/apis/faq/__init__.py\<close>. Python strings are
  modelled as \<^typ>\<open>string\<close> holding ASCII text, Python floats as exact reals
  (rounding is not modelled), \<^verbatim>\<open>datetime\<close> values as natural numbers on an
  abstract clock, and every exception as a value of \<open>error\<close>. Since rounding is
  not modelled, the properties below speak of the scores the index computes, of their
  order and of their sign, never of a particular value a score should have.
\<close>

type_synonym datetime = nat

datatype error = ValueError | IndexError | NotFittedError | HTTPException nat

record FAQItem =
  item_id :: string
  question :: string
  answer :: string
  created_at :: datetime
  updated_at :: datetime
  tags :: "string list"

record UpdateFAQRequest =
  new_question :: string
  new_answer :: string
  new_tags :: "string list option"

record QueryRequest =
  asked :: string
  confidence_threshold :: real

record QueryResponse =
  reply :: "string option"
  confidence :: real
  source_faq_id :: "string option"
  has_answer :: bool

text \<open>The defaults of \<^verbatim>\<open>QueryResponse\<close>: no answer, confidence 0.0, no source.\<close>

definition QueryResponse_default :: QueryResponse where
  "QueryResponse_default =
     \<lparr>reply = None, confidence = 0, source_faq_id = None, has_answer = False\<rparr>"

section \<open>Text vectorisation\<close>

text \<open>
  \<^verbatim>\<open>TfidfVectorizer()\<close> with its default parameters: the text is lower-cased, the
  tokens are the maximal runs of two or more word characters (pattern
  \<^verbatim>\<open>\b\w\w+\b\<close>), the vocabulary is the set of corpus tokens, a term's weight in a
  document is its count times \<open>ln ((1 + n) / (1 + df)) + 1\<close>, and each row is scaled to
  Euclidean length one unless it is zero. Fitting a corpus without any token raises
  \<^verbatim>\<open>ValueError\<close> (empty vocabulary).
\<close>

definition is_upper :: "char \<Rightarrow> bool" where
  "is_upper c \<longleftrightarrow> 65 \<le> (of_char c :: nat) \<and> (of_char c :: nat) \<le> 90"

definition is_word_char :: "char \<Rightarrow> bool" where
  "is_word_char c \<longleftrightarrow>
     (let n = (of_char c :: nat)
      in (97 \<le> n \<and> n \<le> 122) \<or> (65 \<le> n \<and> n \<le> 90) \<or> (48 \<le> n \<and> n \<le> 57) \<or> n = 95)"

definition lower_char :: "char \<Rightarrow> char" where
  "lower_char c = (if is_upper c then char_of ((of_char c :: nat) + 32) else c)"

definition lower :: "string \<Rightarrow> string" where
  "lower s = map lower_char s"

function word_runs :: "string \<Rightarrow> string list" where
  "word_runs [] = []"
| "word_runs (c # cs) =
     (if is_word_char c
      then (c # takeWhile is_word_char cs) # word_runs (dropWhile is_word_char cs)
      else word_runs cs)"
  by pat_completeness auto
termination
  by (relation "measure length") (auto simp: length_dropWhile_le less_Suc_eq_le)

definition tokenize :: "string \<Rightarrow> string list" where
  "tokenize doc = filter (\<lambda>w. 2 \<le> length w) (word_runs (lower doc))"

record TfidfVectorizer =
  vocabulary :: "string list"
  idf :: "real list"

definition doc_freq :: "string \<Rightarrow> string list \<Rightarrow> nat" where
  "doc_freq t corpus = length (filter (\<lambda>d. t \<in> set (tokenize d)) corpus)"

definition smooth_idf :: "string list \<Rightarrow> string \<Rightarrow> real" where
  "smooth_idf corpus t =
     ln ((1 + real (length corpus)) / (1 + real (doc_freq t corpus))) + 1"

definition fit :: "string list \<Rightarrow> error + TfidfVectorizer" where
  "fit corpus =
     (let vocab = remdups (concat (map tokenize corpus))
      in if vocab = [] then Inl ValueError
         else Inr \<lparr>vocabulary = vocab, idf = map (smooth_idf corpus) vocab\<rparr>)"

definition dot :: "real list \<Rightarrow> real list \<Rightarrow> real" where
  "dot u v = sum_list (map2 (*) u v)"

definition normalize :: "real list \<Rightarrow> real list" where
  "normalize v =
     (let n = sqrt (dot v v) in if n = 0 then v else map (\<lambda>x. x / n) v)"

definition transform :: "TfidfVectorizer \<Rightarrow> string \<Rightarrow> real list" where
  "transform m doc =
     normalize (map2 (\<lambda>t w. real (count_list (tokenize doc) t) * w) (vocabulary m) (idf m))"

definition fit_transform :: "string list \<Rightarrow> error + TfidfVectorizer \<times> real list list" where
  "fit_transform corpus =
     (case fit corpus of
        Inl e \<Rightarrow> Inl e
      | Inr m \<Rightarrow> Inr (m, map (transform m) corpus))"

text \<open>
  \<^verbatim>\<open>cosine_similarity(query_vec, vectors).flatten()\<close>: both sides are scaled to
  unit length again and the dot product with every row is taken.
\<close>

definition cosine_similarity :: "real list \<Rightarrow> real list list \<Rightarrow> real list" where
  "cosine_similarity q X = map (\<lambda>row. dot (normalize q) (normalize row)) X"

text \<open>\<^verbatim>\<open>np.argmax\<close>: the index of the first occurrence of the maximum.\<close>

definition argmax :: "real list \<Rightarrow> nat" where
  "argmax xs = length (takeWhile (\<lambda>x. x \<noteq> Max (set xs)) xs)"

section \<open>The similarity index\<close>

record VectorSearch =
  vectorizer :: "TfidfVectorizer option"
  faqs :: "FAQItem list"
  vectors :: "real list list option"
  initialized :: bool

definition VectorSearch_init :: VectorSearch where
  "VectorSearch_init = \<lparr>vectorizer = None, faqs = [], vectors = None, initialized = False\<rparr>"

definition document :: "FAQItem \<Rightarrow> string" where
  "document faq = question faq @ '' '' @ answer faq"

text \<open>
  \<^verbatim>\<open>add_faqs\<close> assigns \<^verbatim>\<open>self.faqs\<close> first. \<^verbatim>\<open>fit_transform\<close> replaces the
  vectorizer's inner transformer by a fresh one before it counts the vocabulary, so a
  fit that raises leaves the vectorizer unfitted (a later \<^verbatim>\<open>transform\<close> raises
  \<^verbatim>\<open>NotFittedError\<close>), while \<^verbatim>\<open>vectors\<close> and \<^verbatim>\<open>initialized\<close> keep
  their old values.
\<close>

definition add_faqs :: "FAQItem list \<Rightarrow> VectorSearch \<Rightarrow> (error + unit) \<times> VectorSearch" where
  "add_faqs fs self =
     (let self1 = self\<lparr>faqs := fs\<rparr>
      in if fs \<noteq> [] then
           (case fit_transform (map document fs) of
              Inl e \<Rightarrow> (Inl e, self1\<lparr>vectorizer := None\<rparr>)
            | Inr (m, X) \<Rightarrow>
                (Inr (), self1\<lparr>vectorizer := Some m, vectors := Some X, initialized := True\<rparr>))
         else (Inr (), self1\<lparr>vectors := None, initialized := False\<rparr>))"

definition similarities :: "TfidfVectorizer \<Rightarrow> real list list \<Rightarrow> string \<Rightarrow> real list" where
  "similarities m X query = cosine_similarity (transform m query) X"

definition search :: "string \<Rightarrow> real \<Rightarrow> VectorSearch \<Rightarrow> error + FAQItem option \<times> real" where
  "search query threshold self =
     (if \<not> initialized self \<or> faqs self = [] then Inr (None, 0)
      else case (vectorizer self, vectors self) of
        (Some m, Some X) \<Rightarrow>
          if X = [] then Inl ValueError
          else
            let sims = similarities m X query;
                best_idx = argmax sims;
                best_similarity = sims ! best_idx
            in if best_similarity \<ge> threshold then
                 (if best_idx < length (faqs self)
                  then Inr (Some (faqs self ! best_idx), best_similarity)
                  else Inl IndexError)
               else Inr (None, best_similarity)
      | _ \<Rightarrow> Inl NotFittedError)"

section \<open>Storage, clock and the completion client\<close>

text \<open>
  The process state: the JSON document stored under the key \<^verbatim>\<open>faqs\<close> (\<open>None\<close> when
  reading or validating it raises), the module-level \<^verbatim>\<open>vector_search\<close>, the
  module-level \<^verbatim>\<open>openai_client\<close> (\<open>None\<close> when its initialisation failed) and the
  log of the requests sent to that client. A request is the pair of the system prompt
  and the user's question; the client either raises or yields a message content, which
  may be absent. Writing to the storage is taken to succeed.
\<close>

datatype completion = Raises | Content "string option"

type_synonym client = "string \<times> string \<Rightarrow> completion"

record world =
  storage :: "FAQItem list option"
  vector_search :: VectorSearch
  openai_client :: "client option"
  requests :: "(string \<times> string) list"

definition get_faqs :: "world \<Rightarrow> FAQItem list \<times> world" where
  "get_faqs w =
     (case storage w of
        None \<Rightarrow> ([], w)
      | Some fs \<Rightarrow>
          (case add_faqs fs (vector_search w) of
             (Inl e, vs) \<Rightarrow> ([], w\<lparr>vector_search := vs\<rparr>)
           | (Inr u, vs) \<Rightarrow> (fs, w\<lparr>vector_search := vs\<rparr>)))"

definition save_faqs :: "FAQItem list \<Rightarrow> world \<Rightarrow> (error + unit) \<times> world" where
  "save_faqs fs w =
     (case add_faqs fs (vector_search w) of
        (r, vs) \<Rightarrow> (r, w\<lparr>storage := Some fs, vector_search := vs\<rparr>))"

section \<open>Updating an entry\<close>

text \<open>\<^verbatim>\<open>next((i for i, f in enumerate(faqs) if f.id == faq_id), None)\<close>\<close>

fun first_index :: "('a \<Rightarrow> bool) \<Rightarrow> 'a list \<Rightarrow> nat option" where
  "first_index P [] = None"
| "first_index P (x # xs) =
     (if P x then Some 0 else map_option Suc (first_index P xs))"

text \<open>\<^verbatim>\<open>request.tags or faqs[faq_index].tags\<close>: \<^verbatim>\<open>None\<close> and \<^verbatim>\<open>[]\<close> are falsy.\<close>

definition tags_or :: "string list option \<Rightarrow> string list \<Rightarrow> string list" where
  "tags_or requested previous =
     (case requested of
        None \<Rightarrow> previous
      | Some ts \<Rightarrow> if ts = [] then previous else ts)"

definition update_faq ::
  "datetime \<Rightarrow> string \<Rightarrow> UpdateFAQRequest \<Rightarrow> world \<Rightarrow> (error + FAQItem) \<times> world" where
  "update_faq now faq_id request w =
     (case get_faqs w of
        (fs, w1) \<Rightarrow>
          (case first_index (\<lambda>f. item_id f = faq_id) fs of
             None \<Rightarrow> (Inl (HTTPException 404), w1)
           | Some faq_index \<Rightarrow>
               let updated_faq =
                     \<lparr>item_id = faq_id,
                      question = new_question request,
                      answer = new_answer request,
                      created_at = created_at (fs ! faq_index),
                      updated_at = now,
                      tags = tags_or (new_tags request) (tags (fs ! faq_index))\<rparr>
               in (case save_faqs (fs[faq_index := updated_faq]) w1 of
                     (Inl e, w2) \<Rightarrow> (Inl e, w2)
                   | (Inr u, w2) \<Rightarrow> (Inr updated_faq, w2))))"

section \<open>Answering a question\<close>

text \<open>\<^verbatim>\<open>sep.join(parts)\<close>\<close>

fun join :: "string \<Rightarrow> string list \<Rightarrow> string" where
  "join sep [] = []"
| "join sep [p] = p"
| "join sep (p # q # ps) = p @ sep @ join sep (q # ps)"

definition faq_context :: "FAQItem list \<Rightarrow> string" where
  "faq_context fs =
     join [CHR 0x0A, CHR 0x0A]
       (map (\<lambda>faq. ''Question: '' @ question faq @ [CHR 0x0A] @ ''Answer: '' @ answer faq) fs)"

definition system_prompt :: "FAQItem list \<Rightarrow> string" where
  "system_prompt fs =
     ''You are a helpful assistant that answers questions based on the following FAQ information. If you don't find a match, reply with 'I don't have enough information to answer this question.' Here are the FAQs:''
     @ [CHR 0x0A, CHR 0x0A] @ faq_context fs"

definition sentinel :: string where
  "sentinel = ''don't have enough information''"

definition no_answer :: "real \<Rightarrow> QueryResponse" where
  "no_answer c = QueryResponse_default\<lparr>has_answer := False, confidence := c\<rparr>"

text \<open>
  The last part of \<^verbatim>\<open>search_faq\<close>, entered when the search gave no direct match:
  the completion client is asked if there is one; whatever is raised inside the
  \<^verbatim>\<open>try\<close> block (by the call, or by \<^verbatim>\<open>.lower()\<close> on an absent content) is
  caught and leads to the closing no-answer response carrying the search's score.
\<close>

definition generative_fallback ::
  "FAQItem list \<Rightarrow> QueryRequest \<Rightarrow> real \<Rightarrow> world \<Rightarrow> (error + QueryResponse) \<times> world" where
  "generative_fallback fs request c w1 =
     (case openai_client w1 of
        None \<Rightarrow> (Inr (no_answer c), w1)
      | Some create \<Rightarrow>
          let msgs = (system_prompt fs, asked request);
              w2 = w1\<lparr>requests := requests w1 @ [msgs]\<rparr>
          in (case create msgs of
                Raises \<Rightarrow> (Inr (no_answer c), w2)
              | Content None \<Rightarrow> (Inr (no_answer c), w2)
              | Content (Some ai_answer) \<Rightarrow>
                  if sublist sentinel (lower ai_answer)
                  then (Inr (QueryResponse_default
                               \<lparr>has_answer := False, confidence := 4 / 10\<rparr>), w2)
                  else (Inr (QueryResponse_default
                               \<lparr>reply := Some ai_answer, confidence := 7 / 10,
                                has_answer := True\<rparr>), w2)))"

definition search_faq :: "QueryRequest \<Rightarrow> world \<Rightarrow> (error + QueryResponse) \<times> world" where
  "search_faq request w =
     (case get_faqs w of
        (fs, w1) \<Rightarrow>
          if fs = [] then (Inr (QueryResponse_default\<lparr>has_answer := False\<rparr>), w1)
          else
            (case search (asked request) (confidence_threshold request) (vector_search w1) of
               Inl e \<Rightarrow> (Inl e, w1)
             | Inr (Some best_match, c) \<Rightarrow>
                 (Inr \<lparr>reply = Some (answer best_match), confidence = c,
                       source_faq_id = Some (item_id best_match), has_answer = True\<rparr>, w1)
             | Inr (None, c) \<Rightarrow> generative_fallback fs request c w1))"

text \<open>Whether the fallback is unavailable or fails for the given request.\<close>

definition fallback_fails :: "client option \<Rightarrow> string \<times> string \<Rightarrow> bool" where
  "fallback_fails c msgs =
     (case c of
        None \<Rightarrow> True
      | Some create \<Rightarrow>
          (case create msgs of
             Raises \<Rightarrow> True
           | Content None \<Rightarrow> True
           | Content (Some ai_answer) \<Rightarrow> False))"

section \<open>Notions used to state the properties\<close>

text \<open>
  The similarity scores a knowledge base gives a query once it is indexed, the row
  \<^verbatim>\<open>np.argmax\<close> selects and the score in that row.
\<close>

definition kb_similarities :: "FAQItem list \<Rightarrow> string \<Rightarrow> real list" where
  "kb_similarities fs query =
     (case fit_transform (map document fs) of
        Inl e \<Rightarrow> []
      | Inr (m, X) \<Rightarrow> similarities m X query)"

definition best_idx :: "FAQItem list \<Rightarrow> string \<Rightarrow> nat" where
  "best_idx fs query = argmax (kb_similarities fs query)"

definition best_similarity :: "FAQItem list \<Rightarrow> string \<Rightarrow> real" where
  "best_similarity fs query = kb_similarities fs query ! best_idx fs query"

text \<open>
  What \<^verbatim>\<open>update_faq\<close> is expected to make of an entry: question, answer,
  modification time and tags are set, nothing else.
\<close>

definition revised :: "datetime \<Rightarrow> UpdateFAQRequest \<Rightarrow> FAQItem \<Rightarrow> FAQItem" where
  "revised now request old =
     old\<lparr>question := new_question request, answer := new_answer request,
         updated_at := now, tags := tags_or (new_tags request) (tags old)\<rparr>"

section \<open>A running example\<close>

text \<open>
  The one-entry knowledge base of the specification's scenarios, a process state holding
  it, and three completion clients: one that declines in capitals, one that answers and
  one whose call fails.
\<close>

definition password_faq :: FAQItem where
  "password_faq =
     \<lparr>item_id = ''faq-1'',
      question = ''How do I reset my password?'',
      answer = ''Click 'Forgot password' on the login page.'',
      created_at = 100, updated_at = 100, tags = [''account'']\<rparr>"

definition example_world :: "FAQItem list \<Rightarrow> client option \<Rightarrow> world" where
  "example_world fs c =
     \<lparr>storage = Some fs, vector_search = VectorSearch_init, openai_client = c, requests = []\<rparr>"

definition declining_client :: client where
  "declining_client msgs = Content (Some ''I DON'T HAVE ENOUGH INFORMATION to answer this question.'')"

definition answering_client :: client where
  "answering_client msgs = Content (Some ''It is sunny.'')"

definition failing_client :: client where
  "failing_client msgs = Raises"

definition weather_query :: QueryRequest where
  "weather_query = \<lparr>asked = ''What's the weather today?'', confidence_threshold = 1 / 2\<rparr>"

definition example_update :: "string list option \<Rightarrow> UpdateFAQRequest" where
  "example_update ts =
     \<lparr>new_question = ''How can I change my password?'',
      new_answer = ''Open the account settings.'', new_tags = ts\<rparr>"

section \<open>Facts about the index\<close>

lemma takeWhile_stops: "\<exists>x\<in>set xs. \<not> P x \<Longrightarrow> length (takeWhile P xs) < length xs"
  by (induction xs) auto

lemma argmax_less: "xs \<noteq> [] \<Longrightarrow> argmax xs < length xs"
proof -
  assume "xs \<noteq> []"
  then have "Max (set xs) \<in> set xs" by (simp add: Max_in)
  then have "\<exists>x\<in>set xs. \<not> (x \<noteq> Max (set xs))" by blast
  then show ?thesis
    unfolding argmax_def by (rule takeWhile_stops)
qed

lemma argmax_nth: "xs \<noteq> [] \<Longrightarrow> xs ! argmax xs = Max (set xs)"
  using argmax_less[of xs] nth_length_takeWhile[of "\<lambda>x. x \<noteq> Max (set xs)" xs]
  by (simp add: argmax_def)

lemma argmax_first: "i < argmax xs \<Longrightarrow> xs ! i \<noteq> Max (set xs)"
proof -
  assume a: "i < argmax xs"
  let ?P = "\<lambda>x. x \<noteq> Max (set xs)"
  from a have "takeWhile ?P xs ! i = xs ! i"
    unfolding argmax_def by (rule takeWhile_nth)
  moreover from a have "takeWhile ?P xs ! i \<in> set (takeWhile ?P xs)"
    unfolding argmax_def by (rule nth_mem)
  ultimately show ?thesis using set_takeWhileD[of "xs ! i" ?P xs] by simp
qed

lemma argmax_le: "xs ! i = Max (set xs) \<Longrightarrow> argmax xs \<le> i"
  using argmax_first[of i xs] by (auto simp: not_le[symmetric])



lemma fit_transform_length:
  "fit_transform corpus = Inr (m, X) \<Longrightarrow> length X = length corpus"
  by (auto simp: fit_transform_def split: sum.splits)

lemma add_faqs_built:
  assumes "add_faqs fs vs = (Inr (), self)" and "fs \<noteq> []"
  shows "\<exists>m X. fit_transform (map document fs) = Inr (m, X) \<and> length X = length fs \<and>
           self = vs\<lparr>faqs := fs, vectorizer := Some m, vectors := Some X, initialized := True\<rparr>"
  using assms
  by (auto simp: add_faqs_def Let_def split: sum.splits dest: fit_transform_length)

lemma kb_similarities_length:
  "fit_transform (map document fs) = Inr (m, X) \<Longrightarrow> length (kb_similarities fs q) = length fs"
  by (auto simp: kb_similarities_def similarities_def cosine_similarity_def
           dest: fit_transform_length)

lemma search_built:
  assumes "add_faqs fs vs = (Inr (), self)" and "fs \<noteq> []"
  shows "search q th self =
           (if th \<le> best_similarity fs q
            then Inr (Some (fs ! best_idx fs q), best_similarity fs q)
            else Inr (None, best_similarity fs q))"
    and "best_idx fs q < length fs"
    and "length (kb_similarities fs q) = length fs"
proof -
  from add_faqs_built[OF assms] obtain m X where
    ft: "fit_transform (map document fs) = Inr (m, X)" and len: "length X = length fs" and
    self: "self = vs\<lparr>faqs := fs, vectorizer := Some m, vectors := Some X, initialized := True\<rparr>"
    by blast
  have sims: "kb_similarities fs q = similarities m X q"
    by (simp add: kb_similarities_def ft)
  show l: "length (kb_similarities fs q) = length fs"
    using ft by (rule kb_similarities_length)
  with assms(2) have "kb_similarities fs q \<noteq> []" by auto
  then show b: "best_idx fs q < length fs"
    unfolding best_idx_def using argmax_less[of "kb_similarities fs q"] l by simp
  have "X \<noteq> []" using len assms(2) by auto
  then show "search q th self =
           (if th \<le> best_similarity fs q
            then Inr (Some (fs ! best_idx fs q), best_similarity fs q)
            else Inr (None, best_similarity fs q))"
    using b assms(2)
    by (simp add: search_def self sims[symmetric] Let_def best_similarity_def best_idx_def)
qed

subsection \<open>Unit vectors and cosines\<close>

lemma dot_self_nonneg: "0 \<le> dot v v"
  unfolding dot_def by (rule sum_list_nonneg) (auto simp: zip_same)

lemma dot_scale2: "dot (map (\<lambda>x. x / a) u) (map (\<lambda>x. x / b) v) = dot u v / (a * b)"
  unfolding dot_def
proof (induction u arbitrary: v)
  case Nil then show ?case by simp
next
  case (Cons x u)
  then show ?case by (cases v) (auto simp: add_divide_distrib)
qed

lemma dot_normalize_self: "dot (normalize v) (normalize v) = (if dot v v = 0 then 0 else 1)"
  using dot_self_nonneg[of v] by (auto simp: normalize_def Let_def dot_scale2)

lemma normalize_idem: "normalize (normalize v) = normalize v"
proof (cases "dot v v = 0")
  case True then show ?thesis by (simp add: normalize_def)
next
  case False
  then have "dot (normalize v) (normalize v) = 1" by (simp add: dot_normalize_self)
  then show ?thesis by (simp add: normalize_def[of "normalize v"])
qed

lemma dot_normalize:
  "dot u u \<noteq> 0 \<Longrightarrow> dot v v \<noteq> 0 \<Longrightarrow>
   dot (normalize u) (normalize v) = dot u v / (sqrt (dot u u) * sqrt (dot v v))"
  by (simp add: normalize_def dot_scale2)

subsection \<open>Fitting and transforming\<close>




lemma fit_ok:
  assumes "d \<in> set corpus" and "tokenize d \<noteq> []"
  shows "fit corpus =
           Inr \<lparr>vocabulary = remdups (concat (map tokenize corpus)),
                idf = map (smooth_idf corpus) (remdups (concat (map tokenize corpus)))\<rparr>"
proof -
  from assms(2) obtain t where "t \<in> set (tokenize d)" by (cases "tokenize d") auto
  with assms(1) have "t \<in> set (remdups (concat (map tokenize corpus)))" by auto
  then have "remdups (concat (map tokenize corpus)) \<noteq> []"
    by (metis empty_iff empty_set)
  then show ?thesis by (simp add: fit_def Let_def)
qed

lemma kb_similarities_nth:
  assumes "fit (map document fs) = Inr m" and "i < length fs"
  shows "kb_similarities fs q ! i =
           dot (normalize (transform m q)) (normalize (transform m (document (fs ! i))))"
  using assms
  by (simp add: kb_similarities_def fit_transform_def similarities_def cosine_similarity_def)

lemma add_faqs_ok:
  assumes "i < length fs" and "tokenize (document (fs ! i)) \<noteq> []"
  shows "add_faqs fs vs = (Inr (), snd (add_faqs fs vs))"
proof -
  have "document (fs ! i) \<in> set (map document fs)" using assms(1) by simp
  from fit_ok[OF this assms(2)] assms(1) show ?thesis
    by (auto simp: add_faqs_def Let_def fit_transform_def)
qed

lemma add_faqs_twice:
  "add_faqs fs (snd (add_faqs fs vs)) = add_faqs fs vs"
  by (auto simp: add_faqs_def Let_def split: sum.splits)

subsection \<open>Tokens of a document and positive scores\<close>











subsection \<open>The scores of the running example\<close>

lemma tok_doc: "tokenize (document password_faq) =
  [''how'', ''do'', ''reset'', ''my'', ''password'', ''click'', ''forgot'', ''password'', ''on'', ''the'', ''login'', ''page'']"
  by code_simp

lemma tok_q1: "tokenize ''How do I reset my password?'' = [''how'', ''do'', ''reset'', ''my'', ''password'']"
  by code_simp

lemma tok_q2: "tokenize ''What's the weather today?'' = [''what'', ''the'', ''weather'', ''today'']"
  by code_simp

lemma fit_example: "fit [document password_faq] =
   Inr \<lparr>vocabulary = [''how'', ''do'', ''reset'', ''my'', ''click'', ''forgot'', ''password'', ''on'', ''the'', ''login'', ''page''],
        idf = [1,1,1,1,1,1,1,1,1,1,1]\<rparr>"
  by (simp add: fit_def tok_doc smooth_idf_def doc_freq_def Let_def)

lemma sims_example:
  "kb_similarities [password_faq] q =
     [dot (normalize (map (\<lambda>t. real (count_list (tokenize q) t))
             [''how'', ''do'', ''reset'', ''my'', ''click'', ''forgot'', ''password'', ''on'', ''the'', ''login'', ''page'']))
          (normalize [1,1,1,1,1,1,2,1,1,1,1])]"
  by (simp add: kb_similarities_def fit_transform_def fit_example similarities_def
        cosine_similarity_def transform_def normalize_idem tok_doc)

lemma best_q1: "best_similarity [password_faq] ''How do I reset my password?'' = 6 / sqrt 70"
proof -
  have "dot (normalize [1,1,1,1,0,0,1,0,0,0,0]) (normalize [1,1,1,1,1,1,2,1,1,1,1]) = 6 / (sqrt 5 * sqrt 14)"
    by (subst dot_normalize) (simp_all add: dot_def)
  then show ?thesis
    by (simp add: best_similarity_def best_idx_def sims_example tok_q1 argmax_def real_sqrt_mult[symmetric])
qed

lemma best_q2: "best_similarity [password_faq] ''What's the weather today?'' = 1 / sqrt 14"
proof -
  have "dot (normalize [0,0,0,0,0,0,0,0,1,0,0]) (normalize [1,1,1,1,1,1,2,1,1,1,1]) = 1 / (sqrt 1 * sqrt 14)"
    by (subst dot_normalize) (simp_all add: dot_def)
  then show ?thesis
    by (simp add: best_similarity_def best_idx_def sims_example tok_q2 argmax_def)
qed

lemma best_idx_example: "best_idx [password_faq] q = 0"
  by (simp add: best_idx_def sims_example argmax_def)

lemma weather_below: "best_similarity [password_faq] (asked weather_query) < confidence_threshold weather_query"
proof -
  have "2 < sqrt 14" by (rule real_less_rsqrt) simp
  then show ?thesis by (simp add: weather_query_def best_q2 field_simps)
qed

lemma password_faq_fields:
  "item_id password_faq = ''faq-1''"
  "answer password_faq = ''Click 'Forgot password' on the login page.''"
  "question password_faq = ''How do I reset my password?''"
  by (simp_all add: password_faq_def)

lemma get_faqs_example: "fst (get_faqs (example_world [password_faq] c)) = [password_faq]"
  by (simp add: get_faqs_def example_world_def add_faqs_def fit_transform_def fit_example)

lemma tok_doc_ne: "tokenize (document password_faq) \<noteq> []"
  by (simp add: tok_doc)

lemma search_example:
  "search q th (snd (add_faqs [password_faq] vs)) =
     (if th \<le> best_similarity [password_faq] q
      then Inr (Some password_faq, best_similarity [password_faq] q)
      else Inr (None, best_similarity [password_faq] q))"
  using search_built(1)[OF add_faqs_ok[of 0 "[password_faq]" vs], of q th] tok_doc_ne
  by (simp add: best_idx_example)

lemma sqrt70: "(1::real) / 2 \<le> 6 / sqrt 70" "6 / sqrt 70 < (1::real)"
proof -
  have "sqrt 70 \<le> 12" by (rule real_le_lsqrt) simp_all
  then show "(1::real) / 2 \<le> 6 / sqrt 70" by (simp add: field_simps)
  have "6 < sqrt 70" by (rule real_less_rsqrt) simp
  then show "6 / sqrt 70 < (1::real)" by (simp add: field_simps)
qed

lemma first_index_example:
  "first_index (\<lambda>f. item_id f = ''faq-1'') [password_faq] = Some 0"
  by (simp add: password_faq_fields)

lemma tok_update: "tokenize (document (revised 200 (example_update ts) password_faq)) \<noteq> []"
proof -
  have "tokenize ''How can I change my password? Open the account settings.'' \<noteq> []"
    by code_simp
  then show ?thesis
    by (simp add: document_def revised_def example_update_def)
qed

section \<open>Facts about the endpoints\<close>

lemma get_faqs_nonempty:
  assumes "get_faqs w = (fs, w1)" and "fs \<noteq> []"
  shows "storage w = Some fs"
    and "add_faqs fs (vector_search w) = (Inr (), vector_search w1)"
    and "w1 = w\<lparr>vector_search := vector_search w1\<rparr>"
  using assms
  by (auto simp: get_faqs_def split: option.splits prod.splits sum.splits)

lemma get_faqs_client:
  "get_faqs w = (fs, w1) \<Longrightarrow> openai_client w1 = openai_client w \<and> requests w1 = requests w"
  by (auto simp: get_faqs_def split: option.splits prod.splits sum.splits)

lemma search_faq_indexed:
  assumes "fst (get_faqs w) = fs" and "fs \<noteq> []"
  shows "search (asked request) (confidence_threshold request)
           (vector_search (snd (get_faqs w))) =
           (if confidence_threshold request \<le> best_similarity fs (asked request)
            then Inr (Some (fs ! best_idx fs (asked request)),
                      best_similarity fs (asked request))
            else Inr (None, best_similarity fs (asked request)))"
    and "search_faq request w =
     (if confidence_threshold request \<le> best_similarity fs (asked request)
      then (Inr \<lparr>reply = Some (answer (fs ! best_idx fs (asked request))),
                 confidence = best_similarity fs (asked request),
                 source_faq_id = Some (item_id (fs ! best_idx fs (asked request))),
                 has_answer = True\<rparr>, snd (get_faqs w))
      else generative_fallback fs request (best_similarity fs (asked request))
             (snd (get_faqs w)))"
proof -
  have g: "get_faqs w = (fs, snd (get_faqs w))"
    using assms(1) by (simp add: prod_eq_iff)
  show s: "search (asked request) (confidence_threshold request)
           (vector_search (snd (get_faqs w))) =
           (if confidence_threshold request \<le> best_similarity fs (asked request)
            then Inr (Some (fs ! best_idx fs (asked request)),
                      best_similarity fs (asked request))
            else Inr (None, best_similarity fs (asked request)))"
    by (rule search_built(1)[OF get_faqs_nonempty(2)[OF g assms(2)] assms(2)])
  show "search_faq request w =
     (if confidence_threshold request \<le> best_similarity fs (asked request)
      then (Inr \<lparr>reply = Some (answer (fs ! best_idx fs (asked request))),
                 confidence = best_similarity fs (asked request),
                 source_faq_id = Some (item_id (fs ! best_idx fs (asked request))),
                 has_answer = True\<rparr>, snd (get_faqs w))
      else generative_fallback fs request (best_similarity fs (asked request))
             (snd (get_faqs w)))"
    using assms(2) by (subst search_faq_def, subst g) (simp add: s)
qed

lemma generative_fallback_client:
  "fst (get_faqs w) = fs \<Longrightarrow>
   generative_fallback fs request c (snd (get_faqs w)) =
     (case openai_client w of
        None \<Rightarrow> (Inr (no_answer c), snd (get_faqs w))
      | Some create \<Rightarrow>
          (case create (system_prompt fs, asked request) of
             Raises \<Rightarrow> Inr (no_answer c)
           | Content None \<Rightarrow> Inr (no_answer c)
           | Content (Some ai_answer) \<Rightarrow>
               if sublist sentinel (lower ai_answer)
               then Inr (QueryResponse_default\<lparr>has_answer := False, confidence := 4 / 10\<rparr>)
               else Inr (QueryResponse_default
                           \<lparr>reply := Some ai_answer, confidence := 7 / 10,
                            has_answer := True\<rparr>),
           (snd (get_faqs w))
             \<lparr>requests := requests w @ [(system_prompt fs, asked request)]\<rparr>))"
  using get_faqs_client[of w fs "snd (get_faqs w)"]
  by (auto simp: generative_fallback_def Let_def prod_eq_iff
           split: option.splits completion.splits)

lemma first_index_Some:
  "first_index P xs = Some i \<Longrightarrow> i < length xs \<and> P (xs ! i) \<and> (\<forall>j<i. \<not> P (xs ! j))"
proof (induction xs arbitrary: i)
  case Nil then show ?case by simp
next
  case (Cons x xs)
  show ?case
  proof (cases "P x")
    case True
    with Cons.prems show ?thesis by simp
  next
    case False
    with Cons.prems obtain k where k: "first_index P xs = Some k" and i: "i = Suc k"
      by auto
    from Cons.IH[OF k] False i show ?thesis
      by (auto simp: less_Suc_eq_0_disj)
  qed
qed

lemma save_faqs_storage: "storage (snd (save_faqs fs w)) = Some fs"
  by (simp add: save_faqs_def split: prod.splits)

lemma save_faqs_outcome:
  assumes "fs \<noteq> []"
  shows "fst (save_faqs fs w) =
           (if concat (map tokenize (map document fs)) = [] then Inl ValueError else Inr ())"
  using assms
  by (simp add: save_faqs_def add_faqs_def Let_def fit_transform_def fit_def
           split: prod.splits)

lemma update_faq_found:
  assumes "fst (get_faqs w) = fs" and "first_index (\<lambda>f. item_id f = faq_id) fs = Some i"
  shows "update_faq now faq_id request w =
    (let updated_faq = \<lparr>item_id = faq_id, question = new_question request,
                         answer = new_answer request, created_at = created_at (fs ! i),
                         updated_at = now,
                         tags = tags_or (new_tags request) (tags (fs ! i))\<rparr>
     in (case save_faqs (fs[i := updated_faq]) (snd (get_faqs w)) of
           (Inl e, w2) \<Rightarrow> (Inl e, w2)
         | (Inr u, w2) \<Rightarrow> (Inr updated_faq, w2)))"
proof -
  have g: "get_faqs w = (fs, snd (get_faqs w))"
    using assms(1) by (simp add: prod_eq_iff)
  show ?thesis
    by (subst update_faq_def, subst g) (simp add: assms(2))
qed

lemma update_faq_effect:
  assumes "fst (get_faqs w) = fs"
    and "first_index (\<lambda>f. item_id f = faq_id) fs = Some i"
  shows "storage (snd (update_faq now faq_id request w)) =
           Some (fs[i := revised now request (fs ! i)])"
    and "fst (update_faq now faq_id request w) =
           (if concat (map tokenize (map document (fs[i := revised now request (fs ! i)]))) = []
            then Inl ValueError else Inr (revised now request (fs ! i)))"
proof -
  from first_index_Some[OF assms(2)] have i: "i < length fs" and id: "item_id (fs ! i) = faq_id"
    by simp_all
  let ?u = "\<lparr>item_id = faq_id, question = new_question request,
              answer = new_answer request, created_at = created_at (fs ! i),
              updated_at = now, tags = tags_or (new_tags request) (tags (fs ! i))\<rparr>"
  have u: "?u = revised now request (fs ! i)"
    using id by (simp add: revised_def)
  have ne: "fs[i := ?u] \<noteq> []" using i by auto
  have upd: "update_faq now faq_id request w =
     (case save_faqs (fs[i := ?u]) (snd (get_faqs w)) of
           (Inl e, w2) \<Rightarrow> (Inl e, w2)
         | (Inr x, w2) \<Rightarrow> (Inr ?u, w2))"
    using update_faq_found[OF assms, of now request] by (simp add: Let_def)
  obtain r w2 where sv: "save_faqs (fs[i := ?u]) (snd (get_faqs w)) = (r, w2)"
    by (cases "save_faqs (fs[i := ?u]) (snd (get_faqs w))")
  have w2: "storage w2 = Some (fs[i := ?u])"
    using save_faqs_storage[of "fs[i := ?u]" "snd (get_faqs w)"] sv by simp
  have r: "r = (if concat (map tokenize (map document (fs[i := ?u]))) = []
                then Inl ValueError else Inr ())"
    using save_faqs_outcome[OF ne, of "snd (get_faqs w)"] sv by simp
  have "storage (snd (update_faq now faq_id request w)) = Some (fs[i := ?u])"
    using w2 by (simp add: upd sv split: sum.splits)
  then show "storage (snd (update_faq now faq_id request w)) =
           Some (fs[i := revised now request (fs ! i)])"
    by (simp only: u)
  have "fst (update_faq now faq_id request w) =
           (if concat (map tokenize (map document (fs[i := ?u]))) = []
            then Inl ValueError else Inr ?u)"
    by (simp add: upd sv r)
  then show "fst (update_faq now faq_id request w) =
           (if concat (map tokenize (map document (fs[i := revised now request (fs ! i)]))) = []
            then Inl ValueError else Inr (revised now request (fs ! i)))"
    by (simp only: u)
qed

section \<open>Empty knowledge base\<close>

text \<open>
  C6. When the stored knowledge base is empty, \<open>search_faq\<close> returns the response with
  \<open>has_answer = False\<close>, confidence \<open>0\<close>, no answer and no source, and the log of
  requests sent to the completion client is left as it was: the client is not invoked,
  whether one is configured or not.
\<close>

theorem search_faq_empty_kb:
  assumes "storage w = Some []"
  shows "fst (search_faq request w) =
           Inr \<lparr>reply = None, confidence = 0, source_faq_id = None, has_answer = False\<rparr>
         \<and> requests (snd (search_faq request w)) = requests w
         \<and> openai_client (snd (search_faq request w)) = openai_client w"
  using assms
  by (simp add: search_faq_def get_faqs_def add_faqs_def QueryResponse_default_def)

theorem search_faq_empty_kb_witness:
  "fst (search_faq weather_query (example_world [] (Some answering_client))) =
     Inr \<lparr>reply = None, confidence = 0, source_faq_id = None, has_answer = False\<rparr>
   \<and> requests (snd (search_faq weather_query (example_world [] (Some answering_client)))) = []"
  using search_faq_empty_kb[of "example_world [] (Some answering_client)" weather_query]
  by (simp add: example_world_def)

section \<open>The acceptance threshold\<close>

text \<open>
  C2. On an index rebuilt from a non-empty knowledge base, the comparison with the
  threshold is inclusive. When the best score is at least the threshold, in particular
  when it equals it, \<open>search\<close> returns the best-scoring entry with that score and
  \<open>search_faq\<close> answers with that entry. When the best score is strictly below the
  threshold, \<open>search\<close> returns no entry and \<open>search_faq\<close> is exactly the fallback
  part run with that score.
\<close>

theorem threshold_is_inclusive:
  assumes "fst (get_faqs w) = fs" and "fs \<noteq> []"
  shows "(confidence_threshold r \<le> best_similarity fs (asked r) \<longrightarrow>
            search (asked r) (confidence_threshold r) (vector_search (snd (get_faqs w))) =
              Inr (Some (fs ! best_idx fs (asked r)), best_similarity fs (asked r))
          \<and> search_faq r w =
              (Inr \<lparr>reply = Some (answer (fs ! best_idx fs (asked r))),
                    confidence = best_similarity fs (asked r),
                    source_faq_id = Some (item_id (fs ! best_idx fs (asked r))),
                    has_answer = True\<rparr>, snd (get_faqs w)))
       \<and> (best_similarity fs (asked r) < confidence_threshold r \<longrightarrow>
            search (asked r) (confidence_threshold r) (vector_search (snd (get_faqs w))) =
              Inr (None, best_similarity fs (asked r))
          \<and> search_faq r w =
              generative_fallback fs r (best_similarity fs (asked r)) (snd (get_faqs w)))"
  using search_faq_indexed[OF assms, of r] by simp

theorem threshold_is_inclusive_witness:
  "search_faq \<lparr>asked = ''How do I reset my password?'', confidence_threshold = 6 / sqrt 70\<rparr>
      (example_world [password_faq] None) =
     (Inr \<lparr>reply = Some ''Click 'Forgot password' on the login page.'',
           confidence = 6 / sqrt 70, source_faq_id = Some ''faq-1'', has_answer = True\<rparr>,
      snd (get_faqs (example_world [password_faq] None)))
   \<and> search (asked weather_query) (confidence_threshold weather_query)
        (vector_search (snd (get_faqs (example_world [password_faq] None)))) =
       Inr (None, 1 / sqrt 14)"
  using threshold_is_inclusive[OF get_faqs_example[of None], where r =
          "\<lparr>asked = ''How do I reset my password?'', confidence_threshold = 6 / sqrt 70\<rparr>"]
        threshold_is_inclusive[OF get_faqs_example[of None], where r = weather_query]
        weather_below
  by (simp add: best_q1 best_q2 best_idx_example password_faq_fields weather_query_def)

section \<open>The fallback chain\<close>

text \<open>
  C3. On a non-empty indexed knowledge base, when the best score is below the threshold
  and the completion client is absent, or its call raises, or its reply carries no
  content, \<open>search_faq\<close> returns normally with \<open>has_answer = False\<close> and the best
  score as confidence; no error reaches the caller.
\<close>

theorem fallback_failure_gives_no_answer:
  assumes "fst (get_faqs w) = fs" and "fs \<noteq> []"
    and "best_similarity fs (asked r) < confidence_threshold r"
    and "fallback_fails (openai_client w) (system_prompt fs, asked r)"
  shows "fst (search_faq r w) =
           Inr \<lparr>reply = None, confidence = best_similarity fs (asked r),
                source_faq_id = None, has_answer = False\<rparr>"
  using assms(3,4)
  by (simp add: search_faq_indexed(2)[OF assms(1,2)] generative_fallback_client[OF assms(1)]
        fallback_fails_def no_answer_def QueryResponse_default_def
      split: option.splits completion.splits)

theorem fallback_failure_gives_no_answer_witness:
  "fst (search_faq weather_query (example_world [password_faq] None)) =
     Inr \<lparr>reply = None, confidence = 1 / sqrt 14, source_faq_id = None, has_answer = False\<rparr>
   \<and> fst (search_faq weather_query (example_world [password_faq] (Some failing_client))) =
     Inr \<lparr>reply = None, confidence = 1 / sqrt 14, source_faq_id = None, has_answer = False\<rparr>"
  using fallback_failure_gives_no_answer[OF get_faqs_example[of None] _ weather_below]
        fallback_failure_gives_no_answer[OF get_faqs_example[of "Some failing_client"] _ weather_below]
  by (simp add: fallback_fails_def example_world_def failing_client_def best_q2 weather_query_def)

lemma lower_sublist: "sublist v text \<Longrightarrow> sublist (lower v) (lower text)"
  unfolding lower_def by (rule map_mono_sublist)

lemma sublist_lower_variant:
  "sublist sentinel (lower text) \<longleftrightarrow> (\<exists>v. sublist v text \<and> lower v = sentinel)"
proof
  assume "sublist sentinel (lower text)"
  then obtain ps ss where "map lower_char text = ps @ sentinel @ ss"
    by (auto simp: sublist_def lower_def)
  then have "\<exists>us rest. text = us @ rest \<and> ps = map lower_char us
               \<and> sentinel @ ss = map lower_char rest"
    by (simp add: map_eq_append_conv)
  then obtain us rest where u: "text = us @ rest" and r: "sentinel @ ss = map lower_char rest"
    by blast
  from r have "\<exists>vs ws. rest = vs @ ws \<and> sentinel = map lower_char vs \<and> ss = map lower_char ws"
    by (simp add: append_eq_map_conv)
  then obtain vs ws where "rest = vs @ ws" and "sentinel = map lower_char vs"
    by blast
  with u have "text = us @ vs @ ws" and "map lower_char vs = sentinel"
    by simp_all
  then show "\<exists>v. sublist v text \<and> lower v = sentinel"
    by (auto simp: lower_def)
next
  assume "\<exists>v. sublist v text \<and> lower v = sentinel"
  then obtain v where "sublist v text" and "lower v = sentinel"
    by blast
  then show "sublist sentinel (lower text)"
    using lower_sublist[of v "text"] by simp
qed

text \<open>
  C4. When the search misses and the completion client replies with a text in which
  the sentinel phrase occurs in some letter case (a part \<open>v\<close> of the text that
  lower-cases to the phrase), \<open>search_faq\<close> returns \<open>has_answer = False\<close> with
  confidence \<open>0.4\<close>, no answer and no source.
\<close>

theorem declined_fallback:
  assumes "fst (get_faqs w) = fs" and "fs \<noteq> []"
    and "best_similarity fs (asked r) < confidence_threshold r"
    and "openai_client w = Some create"
    and "create (system_prompt fs, asked r) = Content (Some text)"
    and "sublist v text" and "lower v = sentinel"
  shows "fst (search_faq r w) =
           Inr \<lparr>reply = None, confidence = 4 / 10, source_faq_id = None, has_answer = False\<rparr>"
proof -
  have "sublist sentinel (lower text)"
    using lower_sublist[OF assms(6)] assms(7) by simp
  then show ?thesis
    using assms(3,4,5)
    by (simp add: search_faq_indexed(2)[OF assms(1,2)] generative_fallback_client[OF assms(1)]
          QueryResponse_default_def)
qed

theorem declined_fallback_witness:
  "fst (search_faq weather_query (example_world [password_faq] (Some declining_client))) =
     Inr \<lparr>reply = None, confidence = 4 / 10, source_faq_id = None, has_answer = False\<rparr>"
proof -
  have s: "sublist ''DON'T HAVE ENOUGH INFORMATION''
             ''I DON'T HAVE ENOUGH INFORMATION to answer this question.''"
    by code_simp
  have l: "lower ''DON'T HAVE ENOUGH INFORMATION'' = sentinel"
    by code_simp
  show ?thesis
    using declined_fallback[where create = declining_client,
            OF get_faqs_example[of "Some declining_client"] _ weather_below _ _ s l]
    by (simp add: example_world_def declining_client_def)
qed

text \<open>
  C5. When the search misses and the completion client replies with a text whose
  lower-cased form does not contain the sentinel phrase (by \<open>sublist_lower_variant\<close>:
  no part of the text is the phrase in any letter case), \<open>search_faq\<close> returns
  \<open>has_answer = True\<close>, the reply text as answer, confidence \<open>0.7\<close> and no source.
\<close>

theorem generated_answer:
  assumes "fst (get_faqs w) = fs" and "fs \<noteq> []"
    and "best_similarity fs (asked r) < confidence_threshold r"
    and "openai_client w = Some create"
    and "create (system_prompt fs, asked r) = Content (Some text)"
    and "\<not> sublist sentinel (lower text)"
  shows "fst (search_faq r w) =
           Inr \<lparr>reply = Some text, confidence = 7 / 10, source_faq_id = None, has_answer = True\<rparr>"
  using assms(3,4,5,6)
  by (simp add: search_faq_indexed(2)[OF assms(1,2)] generative_fallback_client[OF assms(1)]
        QueryResponse_default_def)

theorem generated_answer_witness:
  "fst (search_faq weather_query (example_world [password_faq] (Some answering_client))) =
     Inr \<lparr>reply = Some ''It is sunny.'', confidence = 7 / 10, source_faq_id = None,
          has_answer = True\<rparr>"
proof -
  have n: "\<not> sublist sentinel (lower ''It is sunny.'')"
    by code_simp
  show ?thesis
    using generated_answer[where create = answering_client,
            OF get_faqs_example[of "Some answering_client"] _ weather_below _ _ n]
    by (simp add: example_world_def answering_client_def)
qed

section \<open>Self-match, ties and rebuilding\<close>




text \<open>
  C7. On a built index holding two entries \<open>i < j\<close> with the same question and the same
  answer, for every query the two entries get the same score and \<open>search\<close> never
  selects the later one: the selected row is the first that reaches the best score
  (every earlier row scores strictly less, no row scores more), so whenever the
  duplicated text is best-scoring the selected row is at or before \<open>i\<close>. \<open>search\<close>
  returns the entry of the selected row when the best score reaches the threshold, and
  no entry otherwise.
\<close>

theorem earliest_duplicate_wins:
  assumes "add_faqs fs vs = (Inr (), self)"
    and "i < j" and "j < length fs"
    and "question (fs ! i) = question (fs ! j)"
    and "answer (fs ! i) = answer (fs ! j)"
  shows "kb_similarities fs q ! i = kb_similarities fs q ! j
       \<and> best_idx fs q \<noteq> j
       \<and> (\<forall>k<best_idx fs q. kb_similarities fs q ! k < best_similarity fs q)
       \<and> (\<forall>k<length fs. kb_similarities fs q ! k \<le> best_similarity fs q)
       \<and> (kb_similarities fs q ! j = best_similarity fs q \<longrightarrow> best_idx fs q \<le> i)
       \<and> search q th self =
           (if th \<le> best_similarity fs q
            then Inr (Some (fs ! best_idx fs q), best_similarity fs q)
            else Inr (None, best_similarity fs q))"
proof -
  let ?sims = "kb_similarities fs q"
  have ne: "fs \<noteq> []" using assms(3) by auto
  from add_faqs_built[OF assms(1) ne] obtain m X where
    ft: "fit_transform (map document fs) = Inr (m, X)" by blast
  then have m: "fit (map document fs) = Inr m"
    by (auto simp: fit_transform_def split: sum.splits)
  have len: "length ?sims = length fs" by (rule search_built(3)[OF assms(1) ne])
  then have nonempty: "?sims \<noteq> []" using ne by auto
  have mx: "best_similarity fs q = Max (set ?sims)"
    using argmax_nth[OF nonempty] by (simp add: best_similarity_def best_idx_def)
  have doc: "document (fs ! i) = document (fs ! j)"
    using assms(4,5) by (simp add: document_def)
  have i: "i < length fs" using assms(2,3) by simp
  have eq: "?sims ! i = ?sims ! j"
    by (simp add: kb_similarities_nth[OF m i] kb_similarities_nth[OF m assms(3)] doc)
  have first: "\<forall>k<best_idx fs q. ?sims ! k < best_similarity fs q"
  proof (intro allI impI)
    fix k assume k: "k < best_idx fs q"
    then have "?sims ! k \<noteq> Max (set ?sims)"
      unfolding best_idx_def by (rule argmax_first)
    moreover have "k < length ?sims"
      using k search_built(2)[OF assms(1) ne, of q] len by simp
    then have "?sims ! k \<le> Max (set ?sims)" by (simp add: Max_ge)
    ultimately show "?sims ! k < best_similarity fs q" using mx by simp
  qed
  have all: "\<forall>k<length fs. ?sims ! k \<le> best_similarity fs q"
    using len mx by (simp add: Max_ge)
  have tie: "best_idx fs q \<le> i" if "?sims ! j = best_similarity fs q"
    unfolding best_idx_def using that eq mx by (intro argmax_le) simp
  have notj: "best_idx fs q \<noteq> j"
  proof
    assume b: "best_idx fs q = j"
    then have "?sims ! j = best_similarity fs q" by (simp add: best_similarity_def)
    from tie[OF this] b assms(2) show False by simp
  qed
  show ?thesis
    using eq notj first all tie search_built(1)[OF assms(1) ne, of q th] by simp
qed

theorem earliest_duplicate_wins_witness:
  "search ''reset password'' (best_similarity [password_faq, password_faq\<lparr>item_id := ''faq-2''\<rparr>] ''reset password'')
     (snd (add_faqs [password_faq, password_faq\<lparr>item_id := ''faq-2''\<rparr>] VectorSearch_init)) =
   Inr (Some password_faq, best_similarity [password_faq, password_faq\<lparr>item_id := ''faq-2''\<rparr>] ''reset password'')"
proof -
  let ?fs = "[password_faq, password_faq\<lparr>item_id := ''faq-2''\<rparr>]"
  have built: "add_faqs ?fs VectorSearch_init = (Inr (), snd (add_faqs ?fs VectorSearch_init))"
    using add_faqs_ok[of 0 ?fs VectorSearch_init] tok_doc_ne by simp
  have "best_idx ?fs ''reset password'' < length ?fs"
    by (rule search_built(2)[OF built]) simp
  moreover have "best_idx ?fs ''reset password'' \<noteq> 1"
    using earliest_duplicate_wins[OF built, of 0 1 "''reset password''"] by simp
  ultimately have z: "best_idx ?fs ''reset password'' = 0" by simp
  show ?thesis
    using earliest_duplicate_wins[OF built, of 0 1 "''reset password''"
            "best_similarity ?fs ''reset password''"]
    by (simp add: z)
qed

text \<open>
  C8. Calling \<open>add_faqs\<close> a second time with the same entry list leaves the index in
  the same state as the first call, whatever the state before and whether or not
  fitting raised; so every query with every threshold gets the same search result
  after two calls as after one.
\<close>

theorem add_faqs_idempotent:
  "snd (add_faqs fs (snd (add_faqs fs vs))) = snd (add_faqs fs vs)
   \<and> search q th (snd (add_faqs fs (snd (add_faqs fs vs)))) = search q th (snd (add_faqs fs vs))"
  by (simp add: add_faqs_twice)

theorem add_faqs_idempotent_witness:
  "search ''How do I reset my password?'' (1 / 2)
     (snd (add_faqs [password_faq] (snd (add_faqs [password_faq] VectorSearch_init)))) =
   Inr (Some password_faq, 6 / sqrt 70)"
  using add_faqs_idempotent[of "[password_faq]" VectorSearch_init
          "''How do I reset my password?''" "1 / 2"] sqrt70(1)
  by (simp add: search_example best_q1)

section \<open>Updating preserves identity\<close>

text \<open>
  C9. When \<open>update_faq\<close> finds the identifier among the entries \<open>get_faqs\<close> returns,
  the stored list afterwards is the old list with the found position replaced by an
  entry \<open>u\<close> that has the old identifier (the requested one) and the old creation
  time, the request's question and answer, and the current time as modification time;
  every other position is unchanged. The call returns \<open>u\<close>, unless re-indexing raises
  \<^verbatim>\<open>ValueError\<close> after the write, which cannot happen when \<open>u\<close>'s document
  has a token.
\<close>

theorem update_faq_preserves_identity:
  assumes "fst (get_faqs w) = fs"
    and "first_index (\<lambda>f. item_id f = faq_id) fs = Some i"
  shows "\<exists>u. storage (snd (update_faq now faq_id request w)) = Some (fs[i := u])
           \<and> i < length fs
           \<and> item_id u = item_id (fs ! i) \<and> item_id u = faq_id
           \<and> created_at u = created_at (fs ! i)
           \<and> question u = new_question request
           \<and> answer u = new_answer request
           \<and> updated_at u = now
           \<and> (fst (update_faq now faq_id request w) = Inr u
                \<or> fst (update_faq now faq_id request w) = Inl ValueError)
           \<and> (tokenize (document u) \<noteq> [] \<longrightarrow> fst (update_faq now faq_id request w) = Inr u)"
proof -
  let ?u = "revised now request (fs ! i)"
  from first_index_Some[OF assms(2)] have i: "i < length fs" and id: "item_id (fs ! i) = faq_id"
    by simp_all
  have mem: "?u \<in> set (fs[i := ?u])"
    using i by (simp add: set_update_memI)
  have "tokenize (document ?u) \<noteq> [] \<Longrightarrow>
          concat (map tokenize (map document (fs[i := ?u]))) \<noteq> []"
    using mem by auto
  then show ?thesis
    using update_faq_effect[OF assms, of now request] i id
    by (intro exI[of _ ?u]) (auto simp: revised_def)
qed

theorem update_faq_preserves_identity_witness:
  "update_faq 200 ''faq-1'' (example_update (Some [''security''])) (example_world [password_faq] None)
     = (Inr \<lparr>item_id = ''faq-1'', question = ''How can I change my password?'',
             answer = ''Open the account settings.'', created_at = 100, updated_at = 200,
             tags = [''security'']\<rparr>,
        snd (update_faq 200 ''faq-1'' (example_update (Some [''security'']))
               (example_world [password_faq] None)))
   \<and> storage (snd (update_faq 200 ''faq-1'' (example_update (Some [''security'']))
                     (example_world [password_faq] None)))
     = Some [\<lparr>item_id = ''faq-1'', question = ''How can I change my password?'',
               answer = ''Open the account settings.'', created_at = 100, updated_at = 200,
               tags = [''security'']\<rparr>]"
proof -
  let ?r = "update_faq 200 ''faq-1'' (example_update (Some [''security'']))
              (example_world [password_faq] None)"
  let ?new = "\<lparr>item_id = ''faq-1'', question = ''How can I change my password?'',
               answer = ''Open the account settings.'', created_at = 100, updated_at = 200,
               tags = [''security'']\<rparr>"
  from update_faq_preserves_identity[OF get_faqs_example[of None] first_index_example,
         of 200 "example_update (Some [''security''])"]
  obtain u where st: "storage (snd ?r) = Some ([password_faq][0 := u])"
    and f: "item_id u = ''faq-1''" "created_at u = created_at password_faq"
      "question u = new_question (example_update (Some [''security'']))"
      "answer u = new_answer (example_update (Some [''security'']))" "updated_at u = 200"
    and res: "tokenize (document u) \<noteq> [] \<longrightarrow> fst ?r = Inr u"
    by auto
  have "storage (snd ?r) = Some [revised 200 (example_update (Some [''security''])) password_faq]"
    using update_faq_effect(1)[OF get_faqs_example[of None] first_index_example,
            of 200 "example_update (Some [''security''])"] by simp
  with st have u: "u = revised 200 (example_update (Some [''security''])) password_faq"
    by simp
  have new: "u = ?new"
    by (simp add: u revised_def example_update_def password_faq_def tags_or_def)
  have "fst ?r = Inr u" using res tok_update[of "Some [''security'']"] by (simp add: u)
  then show ?thesis using st new by (simp add: prod_eq_iff)
qed

text \<open>
  C10. When the request's tags are absent or the empty list, the stored entry at the
  found position, and the entry returned when the call returns one, carry the tags the
  entry had before.
\<close>

theorem update_faq_keeps_tags:
  assumes "fst (get_faqs w) = fs"
    and "first_index (\<lambda>f. item_id f = faq_id) fs = Some i"
    and "new_tags request = None \<or> new_tags request = Some []"
  shows "map_option (\<lambda>stored. tags (stored ! i)) (storage (snd (update_faq now faq_id request w)))
           = Some (tags (fs ! i))
       \<and> (\<forall>r. fst (update_faq now faq_id request w) = Inr r \<longrightarrow> tags r = tags (fs ! i))"
proof -
  from first_index_Some[OF assms(2)] have i: "i < length fs" by simp
  have t: "tags (revised now request (fs ! i)) = tags (fs ! i)"
    using assms(3) by (auto simp: revised_def tags_or_def)
  show ?thesis
    using update_faq_effect[OF assms(1,2), of now request] i t
    by (auto split: if_splits)
qed

theorem update_faq_keeps_tags_witness:
  "map_option (\<lambda>stored. tags (stored ! 0))
     (storage (snd (update_faq 200 ''faq-1'' (example_update (Some []))
                      (example_world [password_faq] None)))) = Some [''account'']
   \<and> map_option (\<lambda>stored. tags (stored ! 0))
     (storage (snd (update_faq 200 ''faq-1'' (example_update None)
                      (example_world [password_faq] None)))) = Some [''account'']"
  using update_faq_keeps_tags[OF get_faqs_example[of None] first_index_example,
          of "example_update (Some [])" 200]
        update_faq_keeps_tags[OF get_faqs_example[of None] first_index_example,
          of "example_update None" 200]
  by (simp add: example_update_def password_faq_def)

end
